theory Spec2Isabelle
  imports Complex_Main "HOL-Library.Word" "HOL-Library.Extended_Nat"
begin

section \<open>Errors and control flow\<close>

text \<open>
  Every Python exception the modelled code can raise is a value. An \<open>AssertionError\<close>
  carries the text of the failed \<open>assert\<close>, an \<open>AttributeError\<close> and a \<open>NameError\<close> the
  name that could not be resolved.
\<close>

datatype error =
    AssertionError string
  | AttributeError string
  | NameError string
  | IndexError
  | KeyError
  | ZeroDivisionError
  | ValueError
  | RecursionError

definition bindE :: "error + 'a \<Rightarrow> ('a \<Rightarrow> error + 'b) \<Rightarrow> error + 'b" where
  "bindE m f = (case m of Inl e \<Rightarrow> Inl e | Inr x \<Rightarrow> f x)"

text \<open>A \<open>for\<close> loop over a finite range: the body updates the loop state or raises.\<close>

fun for_loop :: "'i list \<Rightarrow> ('i \<Rightarrow> 's \<Rightarrow> error + 's) \<Rightarrow> 's \<Rightarrow> error + 's" where
  "for_loop [] body s = Inr s"
| "for_loop (x # xs) body s =
     (case body x s of Inl e \<Rightarrow> Inl e | Inr s' \<Rightarrow> for_loop xs body s')"

text \<open>\<open>range(lo, hi)\<close> over Python integers.\<close>

definition range_py :: "int \<Rightarrow> int \<Rightarrow> int list" where
  "range_py lo hi = map (\<lambda>k. lo + int k) [0..<nat (hi - lo)]"

text \<open>A dictionary lookup \<open>d[k]\<close> raises \<open>KeyError\<close> on a missing key.\<close>

definition lookup :: "('k \<times> 'v) list \<Rightarrow> 'k \<Rightarrow> error + 'v" where
  "lookup d k = (case map_of d k of None \<Rightarrow> Inl KeyError | Some v \<Rightarrow> Inr v)"

section \<open>Constant tables\<close>

definition COLOR_TO_IDX :: "(string \<times> nat) list" where
  "COLOR_TO_IDX =
     [(''red'', 0), (''green'', 1), (''blue'', 2),
      (''purple'', 3), (''yellow'', 4), (''grey'', 5)]"

definition IDX_TO_COLOR :: "(nat \<times> string) list" where
  "IDX_TO_COLOR = zip (map snd COLOR_TO_IDX) (map fst COLOR_TO_IDX)"

definition OBJECT_TO_IDX :: "(string \<times> nat) list" where
  "OBJECT_TO_IDX =
     [(''unseen'', 0), (''empty'', 1), (''wall'', 2), (''floor'', 3),
      (''door'', 4), (''key'', 5), (''ball'', 6), (''box'', 7),
      (''goal'', 8), (''lava'', 9), (''agent'', 10)]"

definition IDX_TO_OBJECT :: "(nat \<times> string) list" where
  "IDX_TO_OBJECT = zip (map snd OBJECT_TO_IDX) (map fst OBJECT_TO_IDX)"

definition STATE_TO_IDX :: "(string \<times> nat) list" where
  "STATE_TO_IDX = [(''open'', 0), (''closed'', 1), (''locked'', 2)]"

definition DIR_TO_VEC :: "(int \<times> int) list" where
  "DIR_TO_VEC = [(1, 0), (0, 1), (-1, 0), (0, -1)]"

section \<open>World objects\<close>

text \<open>
  Modelled from the spec: the typed-object library (\<open>WorldObj\<close>, \<open>Wall\<close>) is used by
  \<open>src/minigrid.py\<close> but defined nowhere in it. The spec gives an object a \<open>type\<close>, a
  \<open>color\<close> and an object-specific \<open>state\<close> (a small integer), the capabilities
  \<open>can_overlap\<close>, \<open>can_pickup\<close>, \<open>see_behind\<close>, \<open>encode() -> (type_idx, color_idx,
  state_idx)\<close> and a class-level \<open>decode(type_idx, color_idx, state_idx) ->
  WorldObject|None\<close>. The capability table below is a closed table by type, as the spec's
  design notes ask for. The spec fixes only these rows: a wall is opaque and not
  overlap-able, floor and goal are overlap-able, a key can be picked up, a door is opened
  by toggling. The theorems of this theory depend on no other row.
\<close>

record WorldObj =
  obj_type :: string
  color :: string
  state :: nat

definition can_overlap :: "WorldObj \<Rightarrow> bool" where
  "can_overlap ob =
     (obj_type ob = ''floor'' \<or> obj_type ob = ''goal'' \<or> obj_type ob = ''lava''
      \<or> (obj_type ob = ''door'' \<and> lookup STATE_TO_IDX ''open'' = Inr (state ob)))"

definition can_pickup :: "WorldObj \<Rightarrow> bool" where
  "can_pickup ob =
     (obj_type ob = ''key'' \<or> obj_type ob = ''ball'' \<or> obj_type ob = ''box'')"

definition see_behind :: "WorldObj \<Rightarrow> bool" where
  "see_behind ob =
     (if obj_type ob = ''wall'' then False
      else if obj_type ob = ''door'' then lookup STATE_TO_IDX ''open'' = Inr (state ob)
      else True)"

definition WorldObj_encode :: "WorldObj \<Rightarrow> error + (nat \<times> nat \<times> nat)" where
  "WorldObj_encode ob =
     bindE (lookup OBJECT_TO_IDX (obj_type ob)) (\<lambda>type_idx.
     bindE (lookup COLOR_TO_IDX (color ob)) (\<lambda>color_idx.
     Inr (type_idx, color_idx, state ob)))"

definition WorldObj_decode :: "nat \<Rightarrow> nat \<Rightarrow> nat \<Rightarrow> error + WorldObj option" where
  "WorldObj_decode type_idx color_idx st =
     bindE (lookup IDX_TO_OBJECT type_idx) (\<lambda>ty.
     bindE (lookup IDX_TO_COLOR color_idx) (\<lambda>col.
     if ty = ''empty'' \<or> ty = ''unseen'' then Inr None
     else Inr (Some \<lparr>obj_type = ty, color = col, state = st\<rparr>)))"

text \<open>\<open>Wall()\<close>: the wall object the grid puts beyond its own bounds.\<close>

definition Wall :: WorldObj where
  "Wall = \<lparr>obj_type = ''wall'', color = ''grey'', state = 0\<rparr>"

section \<open>Arrays\<close>

text \<open>
  A two-dimensional numpy array \<open>a[i, j]\<close> is a list of columns. An index in \<open>[-n, 0)\<close>
  counts from the end, any other index outside \<open>[0, n)\<close> raises \<open>IndexError\<close>.
\<close>

definition np_full :: "int \<Rightarrow> int \<Rightarrow> 'a \<Rightarrow> 'a list list" where
  "np_full w h x = replicate (nat w) (replicate (nat h) x)"

definition np_index :: "nat \<Rightarrow> int \<Rightarrow> error + nat" where
  "np_index n k =
     (if 0 \<le> k \<and> k < int n then Inr (nat k)
      else if - int n \<le> k \<and> k < 0 then Inr (nat (k + int n))
      else Inl IndexError)"

definition np_get :: "'a list list \<Rightarrow> int \<Rightarrow> int \<Rightarrow> error + 'a" where
  "np_get a i j =
     bindE (np_index (length a) i) (\<lambda>i'.
     bindE (np_index (length (a ! i')) j) (\<lambda>j'.
     Inr (a ! i' ! j')))"

definition np_set :: "'a list list \<Rightarrow> int \<Rightarrow> int \<Rightarrow> 'a \<Rightarrow> error + 'a list list" where
  "np_set a i j x =
     bindE (np_index (length a) i) (\<lambda>i'.
     bindE (np_index (length (a ! i')) j) (\<lambda>j'.
     Inr (a[i' := (a ! i')[j' := x]])))"

section \<open>Grid\<close>

record Grid =
  width :: int
  height :: int
  grid :: "WorldObj option list"

type_synonym uint8 = "8 word"

definition Grid_init :: "int \<Rightarrow> int \<Rightarrow> error + Grid" where
  "Grid_init w h =
     (if \<not> w \<ge> 3 then Inl (AssertionError ''width >= 3'')
      else if \<not> h \<ge> 3 then Inl (AssertionError ''height >= 3'')
      else Inr \<lparr>width = w, height = h, grid = replicate (nat (w * h)) None\<rparr>)"

text \<open>
  \<open>set\<close> stores at index \<open>j * self.width + 1\<close>, as the source has it, whatever \<open>i\<close> is;
  \<open>get\<close> reads index \<open>j * self.width + i\<close>. A list index beyond the list raises
  \<open>IndexError\<close>.
\<close>

definition set_cell :: "Grid \<Rightarrow> int \<Rightarrow> int \<Rightarrow> WorldObj option \<Rightarrow> error + Grid" where
  "set_cell self i j v =
     (if \<not> (i \<ge> 0 \<and> i < width self) then Inl (AssertionError ''i >= 0 and i < self.width'')
      else if \<not> (j \<ge> 0 \<and> j < height self) then Inl (AssertionError ''j >= 0 and j < self.height'')
      else if nat (j * width self + 1) < length (grid self)
        then Inr (self\<lparr>grid := (grid self)[nat (j * width self + 1) := v]\<rparr>)
      else Inl IndexError)"

definition get :: "Grid \<Rightarrow> int \<Rightarrow> int \<Rightarrow> error + WorldObj option" where
  "get self i j =
     (if \<not> (i \<ge> 0 \<and> i < width self) then Inl (AssertionError ''i >= 0 and i < self.width'')
      else if \<not> (j \<ge> 0 \<and> j < height self) then Inl (AssertionError ''j >= 0 and j < self.height'')
      else if nat (j * width self + i) < length (grid self)
        then Inr (grid self ! nat (j * width self + i))
      else Inl IndexError)"

definition rotate_left :: "Grid \<Rightarrow> error + Grid" where
  "rotate_left self =
     bindE (Grid_init (height self) (width self)) (\<lambda>g0.
       for_loop (range_py 0 (width self)) (\<lambda>i.
         for_loop (range_py 0 (height self)) (\<lambda>j g.
           bindE (get self i j) (\<lambda>v.
           set_cell g j (height g - 1 - 1) v))) g0)"

text \<open>
  In \<open>slice\<close> (here \<open>slice_grid\<close>) the source's inner loop header reads
  \<open>range(0. width)\<close>; it is taken as \<open>range(0, width)\<close>, the only reading under which
  the function has a behaviour. The source column is \<open>x = topX + 1\<close>, as the source
  has it.
\<close>

definition slice_grid :: "Grid \<Rightarrow> int \<Rightarrow> int \<Rightarrow> int \<Rightarrow> int \<Rightarrow> error + Grid" where
  "slice_grid self topX topY w h =
     bindE (Grid_init w h) (\<lambda>g0.
       for_loop (range_py 0 h) (\<lambda>j.
         for_loop (range_py 0 w) (\<lambda>i g.
           let x = topX + 1; y = topY + j in
           bindE (if x \<ge> 0 \<and> x < width self \<and> y \<ge> 0 \<and> y < height self
                  then get self x y else Inr (Some Wall)) (\<lambda>v.
           set_cell g i j v))) g0)"

definition to_uint8 :: "nat \<times> nat \<times> nat \<Rightarrow> uint8 \<times> uint8 \<times> uint8" where
  "to_uint8 t = (case t of (a, b, c) \<Rightarrow> (of_nat a, of_nat b, of_nat c))"

definition encode :: "Grid \<Rightarrow> bool list list option \<Rightarrow> error + (uint8 \<times> uint8 \<times> uint8) list list" where
  "encode self vis_mask =
     (let vm = (case vis_mask of None \<Rightarrow> np_full (width self) (height self) True | Some m \<Rightarrow> m)
      in for_loop (range_py 0 (width self)) (\<lambda>i.
           for_loop (range_py 0 (height self)) (\<lambda>j array.
             bindE (np_get vm i j) (\<lambda>visible.
             if visible then
               bindE (get self i j) (\<lambda>v.
               case v of
                 None \<Rightarrow>
                   bindE (lookup OBJECT_TO_IDX ''empty'') (\<lambda>e.
                   np_set array i j (of_nat e, 0, 0))
               | Some ob \<Rightarrow>
                   bindE (WorldObj_encode ob) (\<lambda>t.
                   np_set array i j (to_uint8 t)))
             else Inr array)))
         (np_full (width self) (height self) (0, 0, 0)))"

text \<open>
  \<open>decode\<close> reads the shape off the array: the number of columns and the length of a
  column (0 when there is no column; \<open>Grid(0, h)\<close> fails either way).
\<close>

definition decode :: "(uint8 \<times> uint8 \<times> uint8) list list \<Rightarrow> error + (Grid \<times> bool list list)" where
  "decode array =
     (let w = int (length array);
          h = (case array of [] \<Rightarrow> 0 | col # _ \<Rightarrow> int (length col))
      in bindE (Grid_init w h) (\<lambda>g0.
           for_loop (range_py 0 w) (\<lambda>i.
             for_loop (range_py 0 h) (\<lambda>j (g, vis_mask).
               bindE (np_get array i j) (\<lambda>(type_idx, color_idx, st).
               bindE (WorldObj_decode (unat type_idx) (unat color_idx) (unat st)) (\<lambda>v.
               bindE (set_cell g i j v) (\<lambda>g'.
               bindE (lookup OBJECT_TO_IDX ''unseen'') (\<lambda>u.
               bindE (np_set vis_mask i j (type_idx \<noteq> of_nat u)) (\<lambda>vis_mask'.
               Inr (g', vis_mask'))))))))
           (g0, np_full w h True)))"

section \<open>Visibility\<close>

text \<open>
  \<open>process_vis\<close> returns the mask; the grid it was called on is mutated in place, so the
  model returns the grid as well. \<open>vis_right\<close> and \<open>vis_left\<close> are the bodies of the two
  sweeps over a row. A cell object is truthy.
\<close>

definition vis_right :: "Grid \<Rightarrow> int \<Rightarrow> int \<Rightarrow> bool list list \<Rightarrow> error + bool list list" where
  "vis_right g j i vmask =
     bindE (np_get vmask i j) (\<lambda>m.
     if \<not> m then Inr vmask
     else
       bindE (get g i j) (\<lambda>cell.
       if (case cell of None \<Rightarrow> False | Some c \<Rightarrow> \<not> see_behind c) then Inr vmask
       else
         bindE (np_set vmask (i + 1) j True) (\<lambda>vmask1.
         if j > 0 then
           bindE (np_set vmask1 (i + 1) (j - 1) True) (\<lambda>vmask2.
           np_set vmask2 i (j - 1) True)
         else Inr vmask1)))"

definition vis_left :: "Grid \<Rightarrow> int \<Rightarrow> int \<Rightarrow> bool list list \<Rightarrow> error + bool list list" where
  "vis_left g j i vmask =
     bindE (np_get vmask i j) (\<lambda>m.
     if \<not> m then Inr vmask
     else
       bindE (get g i j) (\<lambda>cell.
       if (case cell of None \<Rightarrow> False | Some c \<Rightarrow> \<not> see_behind c) then Inr vmask
       else
         bindE (np_set vmask (i - 1) j True) (\<lambda>vmask1.
         if j > 0 then
           bindE (np_set vmask1 (i - 1) (j - 1) True) (\<lambda>vmask2.
           np_set vmask2 i (j - 1) True)
         else Inr vmask1)))"

definition process_vis :: "Grid \<Rightarrow> int \<times> int \<Rightarrow> error + (Grid \<times> bool list list)" where
  "process_vis g agent_pos =
     bindE (np_set (np_full (width g) (height g) False) (fst agent_pos) (snd agent_pos) True) (\<lambda>vmask0.
     bindE (for_loop (rev (range_py 0 (height g))) (\<lambda>j vmask.
              bindE (for_loop (range_py 0 (width g - 1)) (vis_right g j) vmask) (\<lambda>vmask'.
              for_loop (rev (range_py 1 (width g))) (vis_left g j) vmask')) vmask0) (\<lambda>vmask.
     bindE (for_loop (range_py 0 (height g)) (\<lambda>j.
              for_loop (range_py 0 (width g)) (\<lambda>i g'.
                bindE (np_get vmask i j) (\<lambda>m.
                if \<not> m then set_cell g' i j None else Inr g'))) g) (\<lambda>g'.
     Inr (g', vmask))))"

section \<open>The environment\<close>

text \<open>
  The fields of \<open>MiniGridEnv\<close> that \<open>step\<close> and the observation pipeline read or write.
  \<open>reset\<close> asserts that position and direction are set before any step is taken.
  \<open>mission\<close> is \<open>None\<close> when the attribute is absent.
\<close>

record MiniGridEnv =
  env_grid :: Grid
  agent_pos :: "int \<times> int"
  agent_dir :: int
  carrying :: "WorldObj option"
  step_count :: int
  max_steps :: int
  agent_view_size :: int
  see_through_walls :: bool
  mission :: "string option"

record Observation =
  image :: "(uint8 \<times> uint8 \<times> uint8) list list"
  direction :: int
  obs_mission :: string

definition Actions_left :: int where "Actions_left = 0"
definition Actions_right :: int where "Actions_right = 1"
definition Actions_forward :: int where "Actions_forward = 2"
definition Actions_pickup :: int where "Actions_pickup = 3"
definition Actions_drop :: int where "Actions_drop = 4"
definition Actions_toggle :: int where "Actions_toggle = 5"
definition Actions_done :: int where "Actions_done = 6"
definition Actions_up :: int where "Actions_up = 7"
definition Actions_down :: int where "Actions_down = 8"

text \<open>
  \<open>_reward\<close> (here \<open>reward_fn\<close>): Python's floating-point arithmetic is taken as exact
  rational arithmetic; a division by zero raises.
\<close>

definition reward_fn :: "MiniGridEnv \<Rightarrow> error + rat" where
  "reward_fn self =
     (if max_steps self = 0 then Inl ZeroDivisionError
      else Inr (1 - 9 / 10 * (of_int (step_count self) / of_int (max_steps self))))"

definition dir_vec :: "MiniGridEnv \<Rightarrow> error + (int \<times> int)" where
  "dir_vec self =
     (if \<not> (agent_dir self \<ge> 0 \<and> agent_dir self < 4)
        then Inl (AssertionError ''self.agent_dir >= 0 and self.agent_dir < 4'')
      else Inr (DIR_TO_VEC ! nat (agent_dir self)))"

definition front_pos :: "MiniGridEnv \<Rightarrow> error + (int \<times> int)" where
  "front_pos self =
     bindE (dir_vec self) (\<lambda>(dx, dy).
     Inr (fst (agent_pos self) + dx, snd (agent_pos self) + dy))"

text \<open>
  \<open>get_view_exts\<close> reads \<open>self.agent_Pos\<close> when facing down and \<open>slef.agent_pos\<close> when
  facing up, as the source has it: neither name exists.
\<close>

definition get_view_exts :: "MiniGridEnv \<Rightarrow> error + (int \<times> int \<times> int \<times> int)" where
  "get_view_exts self =
     bindE
       (if agent_dir self = 0 then
          Inr (fst (agent_pos self), snd (agent_pos self) - agent_view_size self div 2)
        else if agent_dir self = 1 then Inl (AttributeError ''agent_Pos'')
        else if agent_dir self = 2 then
          Inr (fst (agent_pos self) - agent_view_size self + 1,
               snd (agent_pos self) - agent_view_size self div 2)
        else if agent_dir self = 3 then Inl (NameError ''slef'')
        else Inl (AssertionError ''invalid agent direction''))
       (\<lambda>(topX, topY).
          Inr (topX, topY, topX + agent_view_size self, topY + agent_view_size self))"

text \<open>
  \<open>gen_obs_grid\<close> rotates with \<open>grid.rotate.left()\<close>, as the source has it: a
  \<open>Grid\<close> has no attribute \<open>rotate\<close>, so the body of the rotation loop raises. With
  \<open>see_through_walls\<close> set, the mask's shape names the undefined \<open>grid_height\<close>.
\<close>

definition gen_obs_grid :: "MiniGridEnv \<Rightarrow> error + (Grid \<times> bool list list)" where
  "gen_obs_grid self =
     bindE (get_view_exts self) (\<lambda>(topX, topY, botX, botY).
     bindE (slice_grid (env_grid self) topX topY (agent_view_size self) (agent_view_size self)) (\<lambda>g0.
     bindE (for_loop (range_py 0 (agent_dir self + 1))
              (\<lambda>i g. Inl (AttributeError ''rotate'')) g0) (\<lambda>g1.
     bindE (if \<not> see_through_walls self
            then process_vis g1 (agent_view_size self div 2, agent_view_size self - 1)
            else Inl (NameError ''grid_height'')) (\<lambda>(g2, vis_mask).
     bindE (case carrying self of
              Some ob \<Rightarrow> set_cell g2 (width g2 div 2) (height g2 - 1) (Some ob)
            | None \<Rightarrow> set_cell g2 (width g2 div 2) (height g2 - 1) None) (\<lambda>g3.
     Inr (g3, vis_mask))))))"

definition gen_obs :: "MiniGridEnv \<Rightarrow> error + Observation" where
  "gen_obs self =
     bindE (gen_obs_grid self) (\<lambda>(g, vis_mask).
     bindE (encode g (Some vis_mask)) (\<lambda>img.
     case mission self of
       None \<Rightarrow> Inl (AssertionError ''environments must define a textual mission string'')
     | Some m \<Rightarrow> Inr \<lparr>image = img, direction = agent_dir self, obs_mission = m\<rparr>))"

text \<open>
  \<open>step\<close> returns the environment as the call leaves it, with either the exception raised
  or the returned \<open>(obs, reward, done)\<close>. After the \<open>forward\<close> branch the source compares
  the action with \<open>self.action.pickpup\<close>; the environment has \<open>actions\<close> but no attribute
  \<open>action\<close>, so evaluating that condition raises and no later branch is reached.
\<close>

definition step :: "MiniGridEnv \<Rightarrow> int \<Rightarrow> MiniGridEnv \<times> (error + (Observation \<times> rat \<times> bool))" where
  "step self0 action =
     (let self = self0\<lparr>step_count := step_count self0 + 1\<rparr> in
      case front_pos self of
        Inl e \<Rightarrow> (self, Inl e)
      | Inr fwd_pos \<Rightarrow>
      (case get (env_grid self) (fst fwd_pos) (snd fwd_pos) of
        Inl e \<Rightarrow> (self, Inl e)
      | Inr fwd_cell \<Rightarrow>
      (case
         (if action = Actions_left then
            (let d = agent_dir self - 1
             in (self\<lparr>agent_dir := (if d < 0 then d + 4 else d)\<rparr>, Inr (0, False)))
          else if action = Actions_right then
            (self\<lparr>agent_dir := (agent_dir self + 1) mod 4\<rparr>, Inr (0, False))
          else if action = Actions_forward then
            (let self1 = (if (case fwd_cell of None \<Rightarrow> True | Some c \<Rightarrow> can_overlap c)
                          then self\<lparr>agent_pos := fwd_pos\<rparr> else self);
                 r1 = (if (case fwd_cell of None \<Rightarrow> False | Some c \<Rightarrow> obj_type c = ''goal'')
                       then bindE (reward_fn self1) (\<lambda>r. Inr (r, True))
                       else Inr (0, False));
                 r2 = (if (case fwd_cell of None \<Rightarrow> False | Some c \<Rightarrow> obj_type c = ''lava'')
                       then bindE r1 (\<lambda>(r, d). Inr (r, True))
                       else r1)
             in (self1, r2))
          else (self, Inl (AttributeError ''action'')))
       of
         (self', Inl e) \<Rightarrow> (self', Inl e)
       | (self', Inr (reward, done)) \<Rightarrow>
           (let done' = (if step_count self' \<ge> max_steps self' then True else done)
            in case gen_obs self' of
                 Inl e \<Rightarrow> (self', Inl e)
               | Inr obs \<Rightarrow> (self', Inr (obs, reward, done'))))))"

section \<open>Placing objects\<close>

text \<open>
  \<open>put_obj\<close> and \<open>place_obj\<close> also set \<open>init_pos\<close> and \<open>cur_pos\<close> on the object placed;
  these attributes belong to the object, not to the grid or the agent, and are left out.

  \<open>_rand_int(low, high)\<close> (here \<open>rand_int\<close>) is \<open>self.np_random.randint(low, high)\<close>. The
  seeded source is a parameter: \<open>rnd n low high\<close> is the value its \<open>n\<close>-th call returns,
  and the number of calls made so far is threaded through. \<open>randint\<close> raises
  \<open>ValueError\<close> when \<open>low >= high\<close>.
\<close>

definition rand_int :: "(nat \<Rightarrow> int \<Rightarrow> int \<Rightarrow> int) \<Rightarrow> nat \<Rightarrow> int \<Rightarrow> int \<Rightarrow> error + int" where
  "rand_int rnd n low high = (if low \<ge> high then Inl ValueError else Inr (rnd n low high))"

text \<open>
  The \<open>while True\<close> loop of \<open>place_obj\<close>, with fuel: \<open>None\<close> means that the loop has not
  ended within \<open>fuel\<close> iterations. \<open>max_tries\<close> defaults to \<open>math.inf\<close>, hence \<open>enat\<close>.
  The loop only reads the environment; the grid is written after it.
\<close>

fun place_obj_loop ::
  "nat \<Rightarrow> (nat \<Rightarrow> int \<Rightarrow> int \<Rightarrow> int) \<Rightarrow> MiniGridEnv \<Rightarrow> int \<times> int \<Rightarrow> int \<times> int \<Rightarrow>
   (MiniGridEnv \<Rightarrow> int \<times> int \<Rightarrow> bool) option \<Rightarrow> enat \<Rightarrow> nat \<Rightarrow> nat \<Rightarrow>
   (nat \<times> (error + int \<times> int)) option" where
  "place_obj_loop 0 rnd self top_pos size_wh reject_fn max_tries num_tries k = None"
| "place_obj_loop (Suc fuel) rnd self top_pos size_wh reject_fn max_tries num_tries k =
     (if enat num_tries > max_tries then Some (k, Inl RecursionError)
      else
        case rand_int rnd k (fst top_pos) (min (fst top_pos + fst size_wh) (width (env_grid self))) of
          Inl e \<Rightarrow> Some (k, Inl e)
        | Inr x \<Rightarrow>
        (case rand_int rnd (k + 1) (snd top_pos) (min (snd top_pos + snd size_wh) (height (env_grid self))) of
          Inl e \<Rightarrow> Some (k + 1, Inl e)
        | Inr y \<Rightarrow>
        (case get (env_grid self) x y of
          Inl e \<Rightarrow> Some (k + 2, Inl e)
        | Inr c \<Rightarrow>
            if c \<noteq> None then
              place_obj_loop fuel rnd self top_pos size_wh reject_fn max_tries (num_tries + 1) (k + 2)
            else if (x, y) = agent_pos self then
              place_obj_loop fuel rnd self top_pos size_wh reject_fn max_tries (num_tries + 1) (k + 2)
            else if (case reject_fn of None \<Rightarrow> False | Some f \<Rightarrow> f self (x, y)) then
              place_obj_loop fuel rnd self top_pos size_wh reject_fn max_tries (num_tries + 1) (k + 2)
            else Some (k + 2, Inr (x, y)))))"

definition place_obj ::
  "nat \<Rightarrow> (nat \<Rightarrow> int \<Rightarrow> int \<Rightarrow> int) \<Rightarrow> nat \<Rightarrow> MiniGridEnv \<Rightarrow> WorldObj option \<Rightarrow>
   (int \<times> int) option \<Rightarrow> (int \<times> int) option \<Rightarrow>
   (MiniGridEnv \<Rightarrow> int \<times> int \<Rightarrow> bool) option \<Rightarrow> enat \<Rightarrow>
   ((MiniGridEnv \<times> nat) \<times> (error + int \<times> int)) option" where
  "place_obj fuel rnd k self obj top_pos size_wh reject_fn max_tries =
     (let top1 = (case top_pos of None \<Rightarrow> (0, 0) | Some t \<Rightarrow> (max (fst t) 0, max (snd t) 0));
          size1 = (case size_wh of
                     None \<Rightarrow> (width (env_grid self), height (env_grid self))
                   | Some sz \<Rightarrow> sz)
      in case place_obj_loop fuel rnd self top1 size1 reject_fn max_tries 0 k of
           None \<Rightarrow> None
         | Some (k', Inl e) \<Rightarrow> Some ((self, k'), Inl e)
         | Some (k', Inr pos) \<Rightarrow>
             (case set_cell (env_grid self) (fst pos) (snd pos) obj of
                Inl e \<Rightarrow> Some ((self, k'), Inl e)
              | Inr g \<Rightarrow> Some ((self\<lparr>env_grid := g\<rparr>, k'), Inr pos)))"


section \<open>Shapes of grids and masks\<close>

text \<open>
  \<open>grid_ok\<close>: the invariant of the constructor. \<open>col1_only\<close>: every object sits in
  column 1, the only column \<open>set\<close> writes. \<open>mask_shape w h\<close>: a \<open>w\<close> by \<open>h\<close> array.
  \<open>mask_inv\<close>: such an array with a given entry set. \<open>none_kept g g'\<close>: same size, and
  every empty cell of \<open>g\<close> is empty in \<open>g'\<close>.
\<close>

definition grid_ok :: "Grid \<Rightarrow> bool" where
  "grid_ok g = (3 \<le> width g \<and> 3 \<le> height g \<and> length (grid g) = nat (width g * height g))"

definition col1_only :: "Grid \<Rightarrow> bool" where
  "col1_only g =
     (grid_ok g \<and>
      list_all (\<lambda>k. k mod nat (width g) = 1 \<or> grid g ! k = None) [0..<length (grid g)])"

definition mask_shape :: "int \<Rightarrow> int \<Rightarrow> bool list list \<Rightarrow> bool" where
  "mask_shape w h m = (length m = nat w \<and> list_all (\<lambda>c. length c = nat h) m)"

definition mask_inv :: "int \<Rightarrow> int \<Rightarrow> nat \<Rightarrow> nat \<Rightarrow> bool list list \<Rightarrow> bool" where
  "mask_inv w h a b m = (mask_shape w h m \<and> m ! a ! b)"

definition none_kept :: "Grid \<Rightarrow> Grid \<Rightarrow> bool" where
  "none_kept g g' =
     (width g' = width g \<and> height g' = height g \<and>
      list_all2 (\<lambda>c c'. c = None \<longrightarrow> c' = None) (grid g) (grid g'))"

section \<open>Example grids and environments\<close>

text \<open>
  \<open>wall_grid\<close> is the 3 by 3 grid that \<open>Grid(3, 3)\<close> followed by \<open>set(0, 0, Wall())\<close>
  builds: the wall lands in cell \<open>(1, 0)\<close>. \<open>walls_grid\<close> is what slicing a 3 by 3
  window wholly outside a grid gives: a wall in column 1 of every row. \<open>base_env\<close> is
  an empty 5 by 5 world with the agent at \<open>(2, 2)\<close> facing East; \<open>env_with ob\<close> puts
  \<open>ob\<close> in cell \<open>(3, 2)\<close>.
\<close>

definition empty_grid3 :: Grid where
  "empty_grid3 = \<lparr>width = 3, height = 3, grid = replicate 9 None\<rparr>"

definition wall_grid :: Grid where
  "wall_grid = \<lparr>width = 3, height = 3, grid = (replicate 9 None)[1 := Some Wall]\<rparr>"

definition walls_grid :: Grid where
  "walls_grid = \<lparr>width = 3, height = 3,
     grid = [None, Some Wall, None, None, Some Wall, None, None, Some Wall, None]\<rparr>"

definition base_env :: MiniGridEnv where
  "base_env = \<lparr>env_grid = \<lparr>width = 5, height = 5, grid = replicate 25 None\<rparr>,
     agent_pos = (2, 2), agent_dir = 0, carrying = None, step_count = 0, max_steps = 10,
     agent_view_size = 3, see_through_walls = False, mission = Some ''reach the goal''\<rparr>"

definition env_with :: "WorldObj \<Rightarrow> MiniGridEnv" where
  "env_with ob = base_env\<lparr>env_grid := \<lparr>width = 5, height = 5, grid = (replicate 25 None)[13 := Some ob]\<rparr>\<rparr>"

definition Goal :: WorldObj where
  "Goal = \<lparr>obj_type = ''goal'', color = ''green'', state = 0\<rparr>"




section \<open>Grid operations on the examples\<close>

lemma wall_grid_by_set: "set_cell empty_grid3 0 0 (Some Wall) = Inr wall_grid"
  by code_simp

text \<open>
  C1. The claim: decoding the encoding of a grid \<open>G\<close> under a mask \<open>M\<close> gives \<open>G\<close> with the
  occluded cells cleared, and \<open>M\<close>. On \<open>wall_grid\<close> with every mask bit set nothing is
  occluded, yet the decoded grid is empty: \<open>decode\<close> stores every cell through \<open>set\<close>,
  which writes column 1 whatever the column asked for, so the wall of cell \<open>(1, 0)\<close> is
  overwritten by the empty cell \<open>(2, 0)\<close>. The decoded grid and \<open>wall_grid\<close> have different
  encodings.
\<close>

theorem decode_encode_loses_wall:
  "bindE (encode wall_grid (Some (np_full 3 3 True))) decode = Inr (empty_grid3, np_full 3 3 True)
   \<and> encode empty_grid3 None \<noteq> encode wall_grid None"
  by code_simp

text \<open>
  C3. The claim: four applications of \<open>rotate_left\<close> give a grid equal, by encoding, to
  the original. On \<open>wall_grid\<close> they give the empty grid: each rotation stores every cell
  at row \<open>grid.height - 1 - 1\<close>, column 1.
\<close>

theorem rotate_left_four_times_loses_wall:
  "bindE (bindE (bindE (rotate_left wall_grid) rotate_left) rotate_left) rotate_left = Inr empty_grid3
   \<and> encode empty_grid3 None \<noteq> encode wall_grid None"
  by code_simp

text \<open>
  C6. The claim: \<open>slice\<close> puts a wall in every target cell whose source coordinate is out
  of bounds and the source cell's value elsewhere. Slicing \<open>wall_grid\<close> from \<open>(-1, 0)\<close>
  gives the empty grid: target cell \<open>(0, 0)\<close>, whose source \<open>(-1, 0)\<close> is out of bounds, is
  empty, and target cell \<open>(2, 0)\<close>, whose source \<open>(1, 0)\<close> holds the wall, is empty too.
\<close>

theorem slice_grid_beyond_bounds_empty:
  "slice_grid wall_grid (- 1) 0 3 3 = Inr empty_grid3
   \<and> get empty_grid3 0 0 = Inr None
   \<and> get wall_grid 1 0 = Inr (Some Wall)
   \<and> get empty_grid3 2 0 = Inr None"
  by code_simp

section \<open>Loops, indices and arrays\<close>

lemma for_loop_inv:
  assumes "I s"
    and "\<And>x s. x \<in> set xs \<Longrightarrow> I s \<Longrightarrow> \<exists>s'. body x s = Inr s' \<and> I s'"
  shows "\<exists>s'. for_loop xs body s = Inr s' \<and> I s'"
  using assms
proof (induction xs arbitrary: s)
  case Nil
  then show ?case by simp
next
  case (Cons x xs)
  from Cons.prems obtain s1 where s1: "body x s = Inr s1" "I s1"
    by (meson list.set_intros(1))
  have "\<exists>s'. for_loop xs body s1 = Inr s' \<and> I s'"
    by (rule Cons.IH [OF s1(2)]) (simp add: Cons.prems(2))
  with s1 show ?case by simp
qed

lemma for_loop_prefix_inv:
  assumes "I pre s"
    and "\<And>x s p. x \<in> set xs \<Longrightarrow> I p s \<Longrightarrow> \<exists>s'. body x s = Inr s' \<and> I (p @ [x]) s'"
  shows "\<exists>s'. for_loop xs body s = Inr s' \<and> I (pre @ xs) s'"
  using assms
proof (induction xs arbitrary: s pre)
  case Nil
  then show ?case by simp
next
  case (Cons x xs)
  from Cons.prems obtain s1 where s1: "body x s = Inr s1" "I (pre @ [x]) s1"
    by (meson list.set_intros(1))
  have "\<exists>s'. for_loop xs body s1 = Inr s' \<and> I ((pre @ [x]) @ xs) s'"
    by (rule Cons.IH [OF s1(2)]) (simp add: Cons.prems(2))
  with s1 show ?case by simp
qed

lemma for_loop_partial:
  assumes "I s" and "for_loop xs body s = Inr s'"
    and "\<And>x s s'. x \<in> set xs \<Longrightarrow> I s \<Longrightarrow> body x s = Inr s' \<Longrightarrow> I s'"
  shows "I s'"
  using assms
proof (induction xs arbitrary: s)
  case Nil
  then show ?case by simp
next
  case (Cons x xs)
  from Cons.prems(2) obtain s1 where s1: "body x s = Inr s1" "for_loop xs body s1 = Inr s'"
    by (auto split: sum.splits)
  have "I s1" using Cons.prems(1,3) s1(1) by (meson list.set_intros(1))
  then show ?case using s1(2) Cons.prems(3) by (intro Cons.IH) auto
qed

lemma set_range_py: "x \<in> set (range_py lo hi) \<longleftrightarrow> lo \<le> x \<and> x < hi"
proof -
  have "set (range_py lo hi) = (\<lambda>k. lo + int k) ` {0..<nat (hi - lo)}"
    by (simp add: range_py_def)
  also have "\<dots> = {lo..<hi}"
  proof (rule set_eqI)
    fix y
    show "y \<in> (\<lambda>k. lo + int k) ` {0..<nat (hi - lo)} \<longleftrightarrow> y \<in> {lo..<hi}"
    proof
      assume "y \<in> (\<lambda>k. lo + int k) ` {0..<nat (hi - lo)}"
      then show "y \<in> {lo..<hi}" by auto
    next
      assume y: "y \<in> {lo..<hi}"
      then have "y = lo + int (nat (y - lo))" "nat (y - lo) < nat (hi - lo)" by auto
      then show "y \<in> (\<lambda>k. lo + int k) ` {0..<nat (hi - lo)}"
        by (metis atLeastLessThan_iff image_eqI le0)
    qed
  qed
  finally show ?thesis by simp
qed

lemma cell_index:
  assumes "0 \<le> i" "i < w" "0 \<le> j" "j < h"
  shows "nat (j * w + i) = nat j * nat w + nat i" and "nat (j * w + i) < nat (w * h)"
proof -
  show "nat (j * w + i) = nat j * nat w + nat i"
    using assms by (simp add: nat_add_distrib nat_mult_distrib)
  have "j + 1 \<le> h" using assms by simp
  then have "(j + 1) * w \<le> h * w" using assms by (intro mult_right_mono) auto
  then have "j * w + i < w * h" using assms by (simp add: algebra_simps)
  then show "nat (j * w + i) < nat (w * h)" using assms by simp
qed

lemma get_in:
  assumes "grid_ok g" "0 \<le> i" "i < width g" "0 \<le> j" "j < height g"
  shows "get g i j = Inr (grid g ! nat (j * width g + i))"
  using assms cell_index(2) [of i "width g" j "height g"]
  by (simp add: get_def grid_ok_def)

lemma set_cell_in:
  assumes "grid_ok g" "0 \<le> i" "i < width g" "0 \<le> j" "j < height g"
  shows "set_cell g i j v = Inr (g\<lparr>grid := (grid g)[nat (j * width g + 1) := v]\<rparr>)"
  using assms cell_index(2) [of 1 "width g" j "height g"]
  by (simp add: set_cell_def grid_ok_def)

lemma np_get_in:
  assumes "mask_shape w h m" "0 \<le> i" "i < w" "0 \<le> j" "j < h"
  shows "np_get m i j = Inr (m ! nat i ! nat j)"
  using assms by (simp add: np_get_def np_index_def bindE_def mask_shape_def list_all_length)

lemma np_set_in:
  assumes "mask_shape w h m" "0 \<le> i" "i < w" "0 \<le> j" "j < h"
  shows "np_set m i j x = Inr (m[nat i := (m ! nat i)[nat j := x]])"
  using assms by (simp add: np_set_def np_index_def bindE_def mask_shape_def list_all_length)

lemma mask_shape_update:
  assumes "mask_shape w h m" "a < length m"
  shows "mask_shape w h (m[a := (m ! a)[b := x]])"
  using assms by (auto simp: mask_shape_def list_all_length nth_list_update)

lemma mask_True_update:
  assumes "m ! a ! b" "a < length m" "b < length (m ! a)"
  shows "m[c := (m ! c)[d := True]] ! a ! b"
  using assms by (cases "c = a"; cases "d = b") (simp_all add: nth_list_update)

section \<open>What slicing and rotating return\<close>

text \<open>
  \<open>Grid.set\<close> writes column 1 only, so every grid that \<open>slice\<close> or \<open>rotate_left\<close> returns
  holds its objects in column 1.
\<close>

lemma walls_grid_by_slice: "slice_grid empty_grid3 (- 5) 0 3 3 = Inr walls_grid"
  by code_simp

lemma col1_onlyD:
  assumes "col1_only g" "k < length (grid g)" "k mod nat (width g) \<noteq> 1"
  shows "grid g ! k = None"
  using assms by (auto simp: col1_only_def list_all_iff)

lemma col1_only_init:
  assumes "Grid_init w h = Inr g"
  shows "col1_only g \<and> width g = w \<and> height g = h"
  using assms
  by (auto simp: Grid_init_def col1_only_def grid_ok_def list_all_iff split: if_splits)

lemma col1_only_set_cell:
  assumes c: "col1_only g" and s: "set_cell g i j v = Inr g'"
  shows "col1_only g' \<and> width g' = width g \<and> height g' = height g"
proof -
  from s have j: "0 \<le> j" "j < height g"
    and g': "g' = g\<lparr>grid := (grid g)[nat (j * width g + 1) := v]\<rparr>"
    by (auto simp: set_cell_def split: if_splits)
  from c have ok: "grid_ok g" by (simp add: col1_only_def)
  then have w: "3 \<le> width g" by (simp add: grid_ok_def)
  have e: "nat (j * width g + 1) = nat j * nat (width g) + 1"
    using cell_index(1) [of 1 "width g" j "height g"] j w by simp
  have "(nat j * nat (width g) + 1) mod nat (width g) = 1 mod nat (width g)"
    by (rule mod_mult_self3)
  also have "\<dots> = 1" using w by simp
  finally have m: "nat (j * width g + 1) mod nat (width g) = 1"
    using e by simp
  have n: "grid g' ! k = None" if k: "k < length (grid g')" "k mod nat (width g') \<noteq> 1" for k
  proof -
    from k m g' have "k \<noteq> nat (j * width g + 1)" by auto
    then have "grid g' ! k = grid g ! k" using g' by simp
    also have "\<dots> = None" using col1_onlyD [OF c, of k] k g' by simp
    finally show ?thesis .
  qed
  have "k mod nat (width g') = 1 \<or> grid g' ! k = None" if lt: "k < length (grid g')" for k
  proof (cases "k mod nat (width g') = 1")
    case True
    then show ?thesis by simp
  next
    case False
    then show ?thesis using n [OF lt] by simp
  qed
  then have "list_all (\<lambda>k. k mod nat (width g') = 1 \<or> grid g' ! k = None) [0..<length (grid g')]"
    by (simp add: list_all_iff)
  moreover have "grid_ok g'" using ok g' by (simp add: grid_ok_def)
  ultimately show ?thesis using g' by (simp add: col1_only_def)
qed

lemma col1_only_slice:
  assumes "slice_grid src topX topY w h = Inr g"
  shows "col1_only g \<and> width g = w \<and> height g = h"
proof -
  let ?I = "\<lambda>g. col1_only g \<and> width g = w \<and> height g = h"
  let ?inner = "\<lambda>j. for_loop (range_py 0 w) (\<lambda>i g.
           let x = topX + 1; y = topY + j in
           bindE (if x \<ge> 0 \<and> x < width src \<and> y \<ge> 0 \<and> y < height src
                  then get src x y else Inr (Some Wall)) (\<lambda>v.
           set_cell g i j v))"
  from assms obtain g0 where g0: "Grid_init w h = Inr g0"
    and l: "for_loop (range_py 0 h) ?inner g0 = Inr g"
    by (auto simp: slice_grid_def bindE_def split: sum.splits)
  have i0: "?I g0" using col1_only_init [OF g0] .
  show ?thesis
  proof (rule for_loop_partial [where I = ?I, OF i0 l])
    fix j s s'
    assume s: "?I s" and r: "?inner j s = Inr s'"
    show "?I s'"
    proof (rule for_loop_partial [where I = ?I, OF s r])
      fix i t t'
      assume t: "?I t"
        and b: "(let x = topX + 1; y = topY + j in
           bindE (if x \<ge> 0 \<and> x < width src \<and> y \<ge> 0 \<and> y < height src
                  then get src x y else Inr (Some Wall)) (\<lambda>v.
           set_cell t i j v)) = Inr t'"
      from b obtain v where "set_cell t i j v = Inr t'"
        by (auto simp: Let_def bindE_def split: sum.splits if_splits)
      with t show "?I t'" using col1_only_set_cell [of t i j v t'] by simp
    qed
  qed
qed

lemma col1_only_rotate_left:
  assumes "rotate_left src = Inr g"
  shows "col1_only g \<and> width g = height src \<and> height g = width src"
proof -
  let ?I = "\<lambda>g. col1_only g \<and> width g = height src \<and> height g = width src"
  let ?inner = "\<lambda>i. for_loop (range_py 0 (height src)) (\<lambda>j g.
           bindE (get src i j) (\<lambda>v.
           set_cell g j (height g - 1 - 1) v))"
  from assms obtain g0 where g0: "Grid_init (height src) (width src) = Inr g0"
    and l: "for_loop (range_py 0 (width src)) ?inner g0 = Inr g"
    by (auto simp: rotate_left_def bindE_def split: sum.splits)
  have i0: "?I g0" using col1_only_init [OF g0] .
  show ?thesis
  proof (rule for_loop_partial [where I = ?I, OF i0 l])
    fix i s s'
    assume s: "?I s" and r: "?inner i s = Inr s'"
    show "?I s'"
    proof (rule for_loop_partial [where I = ?I, OF s r])
      fix j t t'
      assume t: "?I t"
        and b: "bindE (get src i j) (\<lambda>v. set_cell t j (height t - 1 - 1) v) = Inr t'"
      from b obtain v where "set_cell t j (height t - 1 - 1) v = Inr t'"
        by (auto simp: bindE_def split: sum.splits)
      with t show "?I t'" using col1_only_set_cell [of t j "height t - 1 - 1" v t'] by simp
    qed
  qed
qed

section \<open>Visibility on sliced and rotated grids\<close>

lemma mask_inv_set:
  assumes "mask_inv w h a b m" "a < nat w" "b < nat h" "0 \<le> i" "i < w" "0 \<le> j" "j < h"
  shows "\<exists>m'. np_set m i j True = Inr m' \<and> mask_inv w h a b m'"
proof -
  from assms have sh: "mask_shape w h m" and t: "m ! a ! b" by (simp_all add: mask_inv_def)
  have la: "a < length m" "b < length (m ! a)" "nat i < length m"
    using sh assms by (simp_all add: mask_shape_def list_all_length)
  have "np_set m i j True = Inr (m[nat i := (m ! nat i)[nat j := True]])"
    using np_set_in [OF sh, of i j True] assms by simp
  moreover have "mask_inv w h a b (m[nat i := (m ! nat i)[nat j := True]])"
    unfolding mask_inv_def
    using mask_shape_update [OF sh la(3)] mask_True_update [OF t la(1,2)] by simp
  ultimately show ?thesis by simp
qed

lemma vis_right_ok:
  assumes g: "grid_ok g" and m: "mask_inv (width g) (height g) a b m"
    and ab: "a < nat (width g)" "b < nat (height g)"
    and ij: "0 \<le> i" "i < width g - 1" "0 \<le> j" "j < height g"
  shows "\<exists>m'. vis_right g j i m = Inr m' \<and> mask_inv (width g) (height g) a b m'"
proof -
  from m have sh: "mask_shape (width g) (height g) m" by (simp add: mask_inv_def)
  have ng: "np_get m i j = Inr (m ! nat i ! nat j)"
    using np_get_in [OF sh, of i j] ij by simp
  have gg: "get g i j = Inr (grid g ! nat (j * width g + i))"
    using get_in [OF g, of i j] ij by simp
  obtain m1 where m1: "np_set m (i + 1) j True = Inr m1" "mask_inv (width g) (height g) a b m1"
    using mask_inv_set [OF m ab, of "i + 1" j] ij by auto
  show ?thesis
  proof (cases "j > 0")
    case False
    with m ng gg m1 show ?thesis by (auto simp: vis_right_def bindE_def)
  next
    case True
    obtain m2 where m2: "np_set m1 (i + 1) (j - 1) True = Inr m2" "mask_inv (width g) (height g) a b m2"
      using mask_inv_set [OF m1(2) ab, of "i + 1" "j - 1"] ij True by auto
    obtain m3 where m3: "np_set m2 i (j - 1) True = Inr m3" "mask_inv (width g) (height g) a b m3"
      using mask_inv_set [OF m2(2) ab, of i "j - 1"] ij True by auto
    from True m ng gg m1 m2 m3 show ?thesis by (auto simp: vis_right_def bindE_def)
  qed
qed

lemma vis_left_ok:
  assumes g: "grid_ok g" and m: "mask_inv (width g) (height g) a b m"
    and ab: "a < nat (width g)" "b < nat (height g)"
    and ij: "1 \<le> i" "i < width g" "0 \<le> j" "j < height g"
  shows "\<exists>m'. vis_left g j i m = Inr m' \<and> mask_inv (width g) (height g) a b m'"
proof -
  from m have sh: "mask_shape (width g) (height g) m" by (simp add: mask_inv_def)
  have ng: "np_get m i j = Inr (m ! nat i ! nat j)"
    using np_get_in [OF sh, of i j] ij by simp
  have gg: "get g i j = Inr (grid g ! nat (j * width g + i))"
    using get_in [OF g, of i j] ij by simp
  obtain m1 where m1: "np_set m (i - 1) j True = Inr m1" "mask_inv (width g) (height g) a b m1"
    using mask_inv_set [OF m ab, of "i - 1" j] ij by auto
  show ?thesis
  proof (cases "j > 0")
    case False
    with m ng gg m1 show ?thesis by (auto simp: vis_left_def bindE_def)
  next
    case True
    obtain m2 where m2: "np_set m1 (i - 1) (j - 1) True = Inr m2" "mask_inv (width g) (height g) a b m2"
      using mask_inv_set [OF m1(2) ab, of "i - 1" "j - 1"] ij True by auto
    obtain m3 where m3: "np_set m2 i (j - 1) True = Inr m3" "mask_inv (width g) (height g) a b m3"
      using mask_inv_set [OF m2(2) ab, of i "j - 1"] ij True by auto
    from True m ng gg m1 m2 m3 show ?thesis by (auto simp: vis_left_def bindE_def)
  qed
qed

lemma vis_rows_ok:
  assumes g: "grid_ok g" and m: "mask_inv (width g) (height g) a b m"
    and ab: "a < nat (width g)" "b < nat (height g)"
  shows "\<exists>m'. for_loop (rev (range_py 0 (height g))) (\<lambda>j vmask.
              bindE (for_loop (range_py 0 (width g - 1)) (vis_right g j) vmask) (\<lambda>vmask'.
              for_loop (rev (range_py 1 (width g))) (vis_left g j) vmask')) m = Inr m'
            \<and> mask_inv (width g) (height g) a b m'"
proof (rule for_loop_inv [where I = "mask_inv (width g) (height g) a b", OF m])
  fix j s
  assume j: "j \<in> set (rev (range_py 0 (height g)))" and s: "mask_inv (width g) (height g) a b s"
  then have jb: "0 \<le> j" "j < height g" by (simp_all add: set_range_py)
  have "\<exists>s1. for_loop (range_py 0 (width g - 1)) (vis_right g j) s = Inr s1
          \<and> mask_inv (width g) (height g) a b s1"
  proof (rule for_loop_inv [where I = "mask_inv (width g) (height g) a b", OF s])
    fix i t
    assume "i \<in> set (range_py 0 (width g - 1))" and "mask_inv (width g) (height g) a b t"
    then show "\<exists>t'. vis_right g j i t = Inr t' \<and> mask_inv (width g) (height g) a b t'"
      using vis_right_ok [OF g _ ab, of t i j] jb by (simp add: set_range_py)
  qed
  then obtain s1 where s1: "for_loop (range_py 0 (width g - 1)) (vis_right g j) s = Inr s1"
      "mask_inv (width g) (height g) a b s1" by blast
  have "\<exists>s2. for_loop (rev (range_py 1 (width g))) (vis_left g j) s1 = Inr s2
          \<and> mask_inv (width g) (height g) a b s2"
  proof (rule for_loop_inv [where I = "mask_inv (width g) (height g) a b", OF s1(2)])
    fix i t
    assume "i \<in> set (rev (range_py 1 (width g)))" and "mask_inv (width g) (height g) a b t"
    then show "\<exists>t'. vis_left g j i t = Inr t' \<and> mask_inv (width g) (height g) a b t'"
      using vis_left_ok [OF g _ ab, of t i j] jb by (simp add: set_range_py)
  qed
  with s1 show "\<exists>s'. bindE (for_loop (range_py 0 (width g - 1)) (vis_right g j) s) (\<lambda>vmask'.
              for_loop (rev (range_py 1 (width g))) (vis_left g j) vmask') = Inr s'
            \<and> mask_inv (width g) (height g) a b s'"
    by (simp add: bindE_def)
qed

lemma mask_inv_origin:
  assumes "3 \<le> w" "3 \<le> h" "0 \<le> ox" "ox < w" "0 \<le> oy" "oy < h"
  shows "\<exists>m. np_set (np_full w h False) ox oy True = Inr m \<and> mask_inv w h (nat ox) (nat oy) m"
proof -
  have sh: "mask_shape w h (np_full w h False)"
    by (simp add: mask_shape_def np_full_def list_all_iff)
  have "np_set (np_full w h False) ox oy True =
          Inr ((np_full w h False)[nat ox := (np_full w h False ! nat ox)[nat oy := True]])"
    using np_set_in [OF sh, of ox oy True] assms by simp
  moreover have "mask_shape w h ((np_full w h False)[nat ox := (np_full w h False ! nat ox)[nat oy := True]])"
    using mask_shape_update [OF sh, of "nat ox"] assms by (simp add: np_full_def)
  moreover have "(np_full w h False)[nat ox := (np_full w h False ! nat ox)[nat oy := True]] ! nat ox ! nat oy"
    using assms by (simp add: np_full_def)
  ultimately show ?thesis by (simp add: mask_inv_def)
qed

lemma none_kept_refl: "none_kept g g"
  by (simp add: none_kept_def list_all2_conv_all_nth)

lemma none_kept_trans: "none_kept g g1 \<Longrightarrow> none_kept g1 g2 \<Longrightarrow> none_kept g g2"
  by (auto simp: none_kept_def list_all2_conv_all_nth)

lemma none_kept_grid_ok: "grid_ok g \<Longrightarrow> none_kept g g' \<Longrightarrow> grid_ok g'"
  by (auto simp: none_kept_def grid_ok_def list_all2_conv_all_nth)

lemma none_kept_nth:
  "none_kept g g' \<Longrightarrow> k < length (grid g) \<Longrightarrow> grid g ! k = None \<Longrightarrow> grid g' ! k = None"
  by (auto simp: none_kept_def list_all2_conv_all_nth)

lemma none_kept_clear: "none_kept g (g\<lparr>grid := (grid g)[k := None]\<rparr>)"
  by (cases "k < length (grid g)")
     (simp_all add: none_kept_def list_all2_conv_all_nth nth_list_update)

lemma clear_row:
  assumes g: "grid_ok ga" and sh: "mask_shape (width ga) (height ga) m"
    and j: "0 \<le> j" "j < height ga"
  shows "\<exists>g2. for_loop (range_py 0 (width ga)) (\<lambda>i g'.
                 bindE (np_get m i j) (\<lambda>b.
                 if \<not> b then set_cell g' i j None else Inr g')) ga = Inr g2
           \<and> none_kept ga g2
           \<and> (\<not> m ! 1 ! nat j \<longrightarrow> grid g2 ! nat (j * width ga + 1) = None)"
proof -
  let ?I = "\<lambda>pre g'. none_kept ga g' \<and>
              (1 \<in> set pre \<and> \<not> m ! 1 ! nat j \<longrightarrow> grid g' ! nat (j * width ga + 1) = None)"
  let ?body = "\<lambda>i g'. bindE (np_get m i j) (\<lambda>b. if \<not> b then set_cell g' i j None else Inr g')"
  have "\<exists>g2. for_loop (range_py 0 (width ga)) ?body ga = Inr g2 \<and> ?I ([] @ range_py 0 (width ga)) g2"
  proof (rule for_loop_prefix_inv [where I = ?I])
    show "?I [] ga" by (simp add: none_kept_refl)
  next
    fix i :: int and s :: Grid and p :: "int list"
    assume i: "i \<in> set (range_py 0 (width ga))" and inv: "?I p s"
    then have ib: "0 \<le> i" "i < width ga" by (simp_all add: set_range_py)
    from inv have nk: "none_kept ga s" by simp
    then have ok: "grid_ok s" and dims: "width s = width ga" "height s = height ga"
      using g by (auto simp: none_kept_grid_ok none_kept_def)
    have ng: "np_get m i j = Inr (m ! nat i ! nat j)"
      using np_get_in [OF sh, of i j] ib j by simp
    have idx: "nat (j * width ga + 1) < length (grid s)"
      using cell_index(2) [of 1 "width ga" j "height ga"] j g ok dims
      by (simp add: grid_ok_def)
    show "\<exists>s'. ?body i s = Inr s' \<and> ?I (p @ [i]) s'"
    proof (cases "m ! nat i ! nat j")
      case True
      then have "i = 1 \<Longrightarrow> m ! 1 ! nat j" by simp
      with True ng inv show ?thesis by (auto simp: bindE_def)
    next
      case False
      have sc: "set_cell s i j None = Inr (s\<lparr>grid := (grid s)[nat (j * width ga + 1) := None]\<rparr>)"
        using set_cell_in [OF ok, of i j None] ib j dims by simp
      have "none_kept ga (s\<lparr>grid := (grid s)[nat (j * width ga + 1) := None]\<rparr>)"
        using none_kept_trans [OF nk none_kept_clear] .
      moreover have "grid (s\<lparr>grid := (grid s)[nat (j * width ga + 1) := None]\<rparr>)
                       ! nat (j * width ga + 1) = None"
        using idx by simp
      ultimately show ?thesis using False ng sc by (simp add: bindE_def)
    qed
  qed
  moreover have "1 \<in> set (range_py 0 (width ga))"
    using g by (simp add: set_range_py grid_ok_def)
  ultimately show ?thesis by auto
qed

lemma clear_all:
  assumes g: "grid_ok g" and sh: "mask_shape (width g) (height g) m"
  shows "\<exists>g'. for_loop (range_py 0 (height g)) (\<lambda>j.
                 for_loop (range_py 0 (width g)) (\<lambda>i g'.
                   bindE (np_get m i j) (\<lambda>b.
                   if \<not> b then set_cell g' i j None else Inr g'))) g = Inr g'
           \<and> none_kept g g'
           \<and> (\<forall>j. 0 \<le> j \<and> j < height g \<and> \<not> m ! 1 ! nat j
                  \<longrightarrow> grid g' ! nat (j * width g + 1) = None)"
proof -
  let ?I = "\<lambda>pre g'. none_kept g g' \<and>
              (\<forall>j \<in> set pre. 0 \<le> j \<and> j < height g \<and> \<not> m ! 1 ! nat j
                 \<longrightarrow> grid g' ! nat (j * width g + 1) = None)"
  let ?row = "\<lambda>j. for_loop (range_py 0 (width g)) (\<lambda>i g'.
                   bindE (np_get m i j) (\<lambda>b.
                   if \<not> b then set_cell g' i j None else Inr g'))"
  have "\<exists>g'. for_loop (range_py 0 (height g)) ?row g = Inr g' \<and> ?I ([] @ range_py 0 (height g)) g'"
  proof (rule for_loop_prefix_inv [where I = ?I])
    show "?I [] g" by (simp add: none_kept_refl)
  next
    fix j :: int and s :: Grid and p :: "int list"
    assume jm: "j \<in> set (range_py 0 (height g))" and inv: "?I p s"
    then have jb: "0 \<le> j" "j < height g" by (simp_all add: set_range_py)
    from inv have nk: "none_kept g s" by simp
    then have ok: "grid_ok s" and dims: "width s = width g" "height s = height g"
      using g by (auto simp: none_kept_grid_ok none_kept_def)
    have len: "length (grid s) = length (grid g)"
      using ok g dims by (simp add: grid_ok_def)
    obtain s2 where s2: "?row j s = Inr s2" "none_kept s s2"
        "\<not> m ! 1 ! nat j \<longrightarrow> grid s2 ! nat (j * width g + 1) = None"
      using clear_row [OF ok, of m j] sh jb dims by auto
    have "none_kept g s2" using none_kept_trans [OF nk s2(2)] .
    moreover have "\<forall>j' \<in> set (p @ [j]). 0 \<le> j' \<and> j' < height g \<and> \<not> m ! 1 ! nat j'
                     \<longrightarrow> grid s2 ! nat (j' * width g + 1) = None"
    proof (intro ballI impI)
      fix j'
      assume j': "j' \<in> set (p @ [j])" and h: "0 \<le> j' \<and> j' < height g \<and> \<not> m ! 1 ! nat j'"
      show "grid s2 ! nat (j' * width g + 1) = None"
      proof (cases "j' = j")
        case True
        with s2(3) h show ?thesis by simp
      next
        case False
        with j' have jp: "j' \<in> set p" by simp
        with inv h have n: "grid s ! nat (j' * width g + 1) = None" by blast
        have "nat (j' * width g + 1) < length (grid s)"
          using cell_index(2) [of 1 "width g" j' "height g"] h g len
          by (simp add: grid_ok_def)
        then show ?thesis using none_kept_nth [OF s2(2) _ n] by simp
      qed
    qed
    ultimately show "\<exists>s'. ?row j s = Inr s' \<and> ?I (p @ [j]) s'" using s2(1) by simp
  qed
  then show ?thesis by (auto simp: set_range_py)
qed

text \<open>
  C2. On every grid that \<open>slice\<close> or \<open>rotate_left\<close> returns (\<open>col1_only\<close>, by
  \<open>col1_only_slice\<close> and \<open>col1_only_rotate_left\<close>) and for every in-bounds origin,
  \<open>process_vis\<close> returns: the mask has the shape of the grid, the origin is \<open>True\<close>, and
  afterwards every cell of the grid whose mask bit is \<open>False\<close> is empty.
\<close>

theorem process_vis_clears_occluded:
  assumes c: "col1_only g"
    and o: "0 \<le> ox" "ox < width g" "0 \<le> oy" "oy < height g"
  shows "\<exists>g' m. process_vis g (ox, oy) = Inr (g', m)
           \<and> mask_shape (width g) (height g) m
           \<and> np_get m ox oy = Inr True
           \<and> width g' = width g \<and> height g' = height g
           \<and> (\<forall>i j. 0 \<le> i \<and> i < width g \<and> 0 \<le> j \<and> j < height g \<and> np_get m i j = Inr False
                  \<longrightarrow> get g' i j = Inr None)"
proof -
  from c have ok: "grid_ok g" by (simp add: col1_only_def)
  then have wh: "3 \<le> width g" "3 \<le> height g" by (simp_all add: grid_ok_def)
  have ab: "nat ox < nat (width g)" "nat oy < nat (height g)" using o by simp_all
  obtain m0 where m0: "np_set (np_full (width g) (height g) False) ox oy True = Inr m0"
      "mask_inv (width g) (height g) (nat ox) (nat oy) m0"
    using mask_inv_origin [OF wh o] by blast
  obtain m where m: "for_loop (rev (range_py 0 (height g))) (\<lambda>j vmask.
              bindE (for_loop (range_py 0 (width g - 1)) (vis_right g j) vmask) (\<lambda>vmask'.
              for_loop (rev (range_py 1 (width g))) (vis_left g j) vmask')) m0 = Inr m"
      "mask_inv (width g) (height g) (nat ox) (nat oy) m"
    using vis_rows_ok [OF ok m0(2) ab] by blast
  from m(2) have sh: "mask_shape (width g) (height g) m" and t: "m ! nat ox ! nat oy"
    by (simp_all add: mask_inv_def)
  obtain g' where g': "for_loop (range_py 0 (height g)) (\<lambda>j.
                 for_loop (range_py 0 (width g)) (\<lambda>i g'.
                   bindE (np_get m i j) (\<lambda>b.
                   if \<not> b then set_cell g' i j None else Inr g'))) g = Inr g'"
      "none_kept g g'"
      "\<forall>j. 0 \<le> j \<and> j < height g \<and> \<not> m ! 1 ! nat j \<longrightarrow> grid g' ! nat (j * width g + 1) = None"
    using clear_all [OF ok sh] by blast
  have pv: "process_vis g (ox, oy) = Inr (g', m)"
    using m0(1) m(1) g'(1) by (simp add: process_vis_def bindE_def)
  have ok': "grid_ok g'" and dims: "width g' = width g" "height g' = height g"
    using none_kept_grid_ok [OF ok g'(2)] g'(2) by (simp_all add: none_kept_def)
  have orig: "np_get m ox oy = Inr True"
    using np_get_in [OF sh, of ox oy] o t by simp
  have cells: "get g' i j = Inr None"
    if b: "0 \<le> i" "i < width g" "0 \<le> j" "j < height g" and f: "np_get m i j = Inr False" for i j
  proof -
    have nm: "\<not> m ! nat i ! nat j"
      using np_get_in [OF sh, of i j] b f by simp
    have gg: "get g' i j = Inr (grid g' ! nat (j * width g + i))"
      using get_in [OF ok', of i j] b dims by simp
    have idx: "nat (j * width g + i) = nat j * nat (width g) + nat i"
        "nat (j * width g + i) < length (grid g)"
      using cell_index [of i "width g" j "height g"] b ok by (simp_all add: grid_ok_def)
    show ?thesis
    proof (cases "i = 1")
      case True
      with nm g'(3) b gg show ?thesis by simp
    next
      case False
      have "nat (j * width g + i) mod nat (width g) = nat i"
        using idx(1) b by simp
      moreover have "nat i \<noteq> 1" using False b by simp
      ultimately have "grid g ! nat (j * width g + i) = None"
        using col1_onlyD [OF c idx(2)] by simp
      then show ?thesis using none_kept_nth [OF g'(2) idx(2)] gg by simp
    qed
  qed
  show ?thesis using pv sh orig dims cells by blast
qed

text \<open>
  On \<open>walls_grid\<close>, a sliced grid, with the origin at the bottom-centre cell: the wall
  under the origin stops the propagation, and every other cell ends up empty.
\<close>

theorem process_vis_clears_occluded_witness:
  "col1_only walls_grid
   \<and> process_vis walls_grid (1, 2) =
       Inr (empty_grid3, [[False, False, False], [False, False, True], [False, False, False]])
   \<and> (\<exists>g' m. process_vis walls_grid (1, 2) = Inr (g', m)
           \<and> mask_shape 3 3 m
           \<and> np_get m 1 2 = Inr True
           \<and> width g' = 3 \<and> height g' = 3
           \<and> (\<forall>i j. 0 \<le> i \<and> i < 3 \<and> 0 \<le> j \<and> j < 3 \<and> np_get m i j = Inr False
                  \<longrightarrow> get g' i j = Inr None))"
proof -
  have c: "col1_only walls_grid"
    using col1_only_slice [OF walls_grid_by_slice] by simp
  have w: "width walls_grid = 3" "height walls_grid = 3" by (simp_all add: walls_grid_def)
  have p: "process_vis walls_grid (1, 2) =
       Inr (empty_grid3, [[False, False, False], [False, False, True], [False, False, False]])"
    by code_simp
  show ?thesis
    using process_vis_clears_occluded [OF c, of 1 2] c p w by simp
qed

section \<open>The observation pipeline never returns\<close>

lemma for_loop_raise:
  "xs \<noteq> [] \<Longrightarrow> for_loop xs (\<lambda>i g. Inl e) s = Inl e"
  by (cases xs) simp_all

lemma gen_obs_grid_raises: "\<exists>e. gen_obs_grid s = Inl e"
proof (cases "get_view_exts s")
  case (Inl e)
  then show ?thesis by (simp add: gen_obs_grid_def bindE_def)
next
  case (Inr ex)
  then have d: "agent_dir s = 0 \<or> agent_dir s = 2"
    by (auto simp: get_view_exts_def bindE_def split: if_splits)
  then have "range_py 0 (agent_dir s + 1) \<noteq> []"
    by (auto simp: range_py_def)
  then have "for_loop (range_py 0 (agent_dir s + 1)) (\<lambda>i g. Inl (AttributeError ''rotate'')) g
      = Inl (AttributeError ''rotate'')" for g :: Grid
    by (rule for_loop_raise)
  then show ?thesis
    by (auto simp: gen_obs_grid_def bindE_def split: sum.splits prod.splits)
qed

lemma gen_obs_raises: "\<exists>e. gen_obs s = Inl e"
  using gen_obs_grid_raises [of s] by (auto simp: gen_obs_def bindE_def)

section \<open>One step of the environment\<close>

lemma front_pos_step_count [simp]: "front_pos (s\<lparr>step_count := n\<rparr>) = front_pos s"
  by (simp add: front_pos_def dir_vec_def)

lemmas Actions_defs = Actions_left_def Actions_right_def Actions_forward_def


lemma step_front_fail:
  "front_pos s = Inl e \<Longrightarrow> step s a = (s\<lparr>step_count := step_count s + 1\<rparr>, Inl e)"
  by (simp add: step_def Let_def)

lemma step_get_fail:
  "front_pos s = Inr p \<Longrightarrow> get (env_grid s) (fst p) (snd p) = Inl e
   \<Longrightarrow> step s a = (s\<lparr>step_count := step_count s + 1\<rparr>, Inl e)"
  by (simp add: step_def Let_def)

lemma step_other:
  "front_pos s = Inr p \<Longrightarrow> get (env_grid s) (fst p) (snd p) = Inr c
   \<Longrightarrow> a \<noteq> Actions_left \<Longrightarrow> a \<noteq> Actions_right \<Longrightarrow> a \<noteq> Actions_forward
   \<Longrightarrow> step s a = (s\<lparr>step_count := step_count s + 1\<rparr>, Inl (AttributeError ''action''))"
  by (simp add: step_def Let_def)

lemma step_left_fst:
  "front_pos s = Inr p \<Longrightarrow> get (env_grid s) (fst p) (snd p) = Inr c
   \<Longrightarrow> fst (step s Actions_left) =
        s\<lparr>step_count := step_count s + 1,
          agent_dir := (if agent_dir s - 1 < 0 then agent_dir s - 1 + 4 else agent_dir s - 1)\<rparr>"
  by (simp add: step_def Let_def Actions_defs split: sum.split prod.split)

lemma step_right_fst:
  "front_pos s = Inr p \<Longrightarrow> get (env_grid s) (fst p) (snd p) = Inr c
   \<Longrightarrow> fst (step s Actions_right) =
        s\<lparr>step_count := step_count s + 1, agent_dir := (agent_dir s + 1) mod 4\<rparr>"
  by (simp add: step_def Let_def Actions_defs split: sum.split prod.split)

lemma step_forward_fst:
  assumes f: "front_pos s = Inr p" and g: "get (env_grid s) (fst p) (snd p) = Inr c"
  shows "fst (step s Actions_forward) =
        (if (case c of None \<Rightarrow> True | Some ob \<Rightarrow> can_overlap ob)
         then s\<lparr>step_count := step_count s + 1, agent_pos := p\<rparr>
         else s\<lparr>step_count := step_count s + 1\<rparr>)"
proof (cases c)
  case None
  with f g show ?thesis
    by (simp add: step_def Let_def Actions_defs split: sum.split)
next
  case (Some ob)
  show ?thesis
  proof (cases "obj_type ob = ''goal''")
    case True
    then have nl: "obj_type ob \<noteq> ''lava''" by simp
    from f g Some True nl show ?thesis
      by (cases "can_overlap ob")
         (simp_all add: step_def Let_def Actions_defs bindE_def split: sum.split prod.split)
  next
    case False
    from f g Some False show ?thesis
      by (cases "can_overlap ob"; cases "obj_type ob = ''lava''")
         (simp_all add: step_def Let_def Actions_defs bindE_def split: sum.split)
  qed
qed

lemma step_raises: "\<exists>e. snd (step s a) = Inl e"
proof (cases "front_pos s")
  case (Inl e)
  then show ?thesis by (simp add: step_front_fail)
next
  case p: (Inr p)
  show ?thesis
  proof (cases "get (env_grid s) (fst p) (snd p)")
    case (Inl e)
    with p show ?thesis by (simp add: step_get_fail)
  next
    case c: (Inr c)
    have g: "gen_obs s' \<noteq> Inr ob" for s' ob
      using gen_obs_raises [of s'] by auto
    consider "a = Actions_left" | "a = Actions_right" | "a = Actions_forward"
      | "a \<noteq> Actions_left" "a \<noteq> Actions_right" "a \<noteq> Actions_forward"
      by blast
    then show ?thesis
    proof cases
      case 1
      with p c show ?thesis
        by (simp add: step_def Let_def Actions_defs g split: sum.split)
    next
      case 2
      with p c show ?thesis
        by (simp add: step_def Let_def Actions_defs g split: sum.split)
    next
      case 3
      show ?thesis
      proof (cases c)
        case None
        with p c 3 show ?thesis
          by (simp add: step_def Let_def Actions_defs g split: sum.split)
      next
        case (Some ob)
        with p c 3 show ?thesis
          by (cases "can_overlap ob"; cases "obj_type ob = ''goal''"; cases "obj_type ob = ''lava''")
             (simp_all add: step_def Let_def Actions_defs bindE_def g split: sum.split prod.split)
      qed
    next
      case 4
      with p c show ?thesis by (simp add: step_other)
    qed
  qed
qed

lemma step_step_count: "step_count (fst (step s a)) = step_count s + 1"
proof (cases "front_pos s")
  case (Inl e)
  then show ?thesis by (simp add: step_front_fail)
next
  case p: (Inr p)
  show ?thesis
  proof (cases "get (env_grid s) (fst p) (snd p)")
    case (Inl e)
    with p show ?thesis by (simp add: step_get_fail)
  next
    case c: (Inr c)
    consider "a = Actions_left" | "a = Actions_right" | "a = Actions_forward"
      | "a \<noteq> Actions_left" "a \<noteq> Actions_right" "a \<noteq> Actions_forward"
      by blast
    then show ?thesis
    proof cases
      case 1
      with p c show ?thesis by (simp add: step_left_fst)
    next
      case 2
      with p c show ?thesis by (simp add: step_right_fst)
    next
      case 3
      with p c show ?thesis by (simp add: step_forward_fst)
    next
      case 4
      with p c show ?thesis by (simp add: step_other)
    qed
  qed
qed

text \<open>
  C4. The claim: with a goal in the forward cell, \<open>step(forward)\<close> returns \<open>done = True\<close>
  and the reward. With the agent at \<open>(2, 2)\<close> facing East, a goal at \<open>(3, 2)\<close>,
  \<open>max_steps = 10\<close> and \<open>step_count = 0\<close>, the call moves the agent, then raises in the
  observation pipeline (\<open>grid.rotate.left()\<close>): it returns neither a flag nor a reward.
\<close>

theorem step_forward_goal_raises:
  "step (env_with Goal) Actions_forward =
     ((env_with Goal)\<lparr>step_count := 1, agent_pos := (3, 2)\<rparr>, Inl (AttributeError ''rotate''))"
  by code_simp



text \<open>
  C7. The claim: for every action of the enum, \<open>step\<close> increments \<open>step_count\<close> and
  returns \<open>done = True\<close> once the count has reached \<open>max_steps\<close>. With \<open>max_steps = 1\<close> the
  count reaches the limit, but \<open>toggle\<close> raises at the comparison with
  \<open>self.action.pickpup\<close> and \<open>left\<close> raises in the observation pipeline: no flag is
  returned.
\<close>

theorem step_at_limit_raises:
  "step (base_env\<lparr>max_steps := 1\<rparr>) Actions_toggle =
     (base_env\<lparr>max_steps := 1, step_count := 1\<rparr>, Inl (AttributeError ''action''))
   \<and> step (base_env\<lparr>max_steps := 1\<rparr>) Actions_left =
     (base_env\<lparr>max_steps := 1, step_count := 1, agent_dir := 3\<rparr>, Inl (NameError ''slef''))"
  by code_simp


text \<open>
  The placement loop ends when \<open>max_tries\<close> is finite and the fuel exceeds it by two; a
  failed placement returns the environment it was given.
\<close>

lemma place_obj_loop_returns:
  "0 < fuel \<Longrightarrow> m + 2 \<le> num_tries + fuel
   \<Longrightarrow> place_obj_loop fuel rnd self top_pos size_wh reject_fn (enat m) num_tries k \<noteq> None"
proof (induction fuel arbitrary: num_tries k)
  case 0
  then show ?case by simp
next
  case (Suc fuel)
  show ?case
  proof (cases "m < num_tries")
    case True
    then show ?thesis by simp
  next
    case False
    with Suc.prems have f: "0 < fuel" "m + 2 \<le> (num_tries + 1) + fuel" by simp_all
    have r: "place_obj_loop fuel rnd self top_pos size_wh reject_fn (enat m) (num_tries + 1) k' \<noteq> None" for k'
      using Suc.IH [OF f] .
    from False r show ?thesis
      by (simp split: sum.split)
  qed
qed

lemma place_obj_returns:
  "m + 2 \<le> fuel \<Longrightarrow> place_obj fuel rnd k self obj top_pos size_wh reject_fn (enat m) \<noteq> None"
proof -
  assume f: "m + 2 \<le> fuel"
  then have "0 < fuel" "m + 2 \<le> 0 + fuel" by simp_all
  then have "place_obj_loop fuel rnd self t sz reject_fn (enat m) 0 k \<noteq> None" for t sz
    by (rule place_obj_loop_returns)
  then show ?thesis
    by (auto simp: place_obj_def Let_def split: option.splits sum.splits prod.splits)
qed






text \<open>
  C10. When the cell in front of the agent lies outside the grid, \<open>step\<close> fails with the
  bounds assertion of \<open>Grid.get\<close> for every action, the turns included: the forward cell
  is read before the action is looked at. Only \<open>step_count\<close> has changed.
\<close>

theorem step_outward_fails:
  assumes "front_pos s = Inr (x, y)"
    and "\<not> (0 \<le> x \<and> x < width (env_grid s) \<and> 0 \<le> y \<and> y < height (env_grid s))"
  shows "step s action =
           (s\<lparr>step_count := step_count s + 1\<rparr>,
            Inl (AssertionError (if x \<ge> 0 \<and> x < width (env_grid s)
                                 then ''j >= 0 and j < self.height''
                                 else ''i >= 0 and i < self.width'')))"
  using assms
  by (auto simp: step_def Let_def get_def split: sum.splits prod.splits)

text \<open>
  At the East edge of \<open>base_env\<close>, facing East, for both turns.
\<close>

theorem step_outward_fails_witness:
  "step (base_env\<lparr>agent_pos := (4, 2)\<rparr>) Actions_left =
     (base_env\<lparr>agent_pos := (4, 2), step_count := 1\<rparr>, Inl (AssertionError ''i >= 0 and i < self.width''))
   \<and> step (base_env\<lparr>agent_pos := (4, 2)\<rparr>) Actions_right =
     (base_env\<lparr>agent_pos := (4, 2), step_count := 1\<rparr>, Inl (AssertionError ''i >= 0 and i < self.width''))"
proof -
  have f: "front_pos (base_env\<lparr>agent_pos := (4, 2)\<rparr>) = Inr (5, 2)" by code_simp
  have b: "\<not> (0 \<le> (5::int) \<and> 5 < width (env_grid (base_env\<lparr>agent_pos := (4, 2)\<rparr>))
              \<and> 0 \<le> (2::int) \<and> 2 < height (env_grid (base_env\<lparr>agent_pos := (4, 2)\<rparr>)))"
    by code_simp
  have c: "step_count base_env + 1 = 1" by code_simp
  have w: "width (env_grid base_env) = 5" by code_simp
  show ?thesis
    using step_outward_fails [OF f b, of Actions_left] step_outward_fails [OF f b, of Actions_right] c w
    by simp
qed

end
